theory Spec2Isabelle
  imports Complex_Main
begin

section \<open>Data model of the transport dashboard\<close>

text \<open>
  The dashboard is one React component whose state is a handful of \<open>useState\<close> cells and
  two refs. Every handler is modelled as a function from the session state to the next
  session state. JavaScript numbers are modelled exactly: readings and thresholds as
  rationals, the integrity score, the deductions and the ids (all of them whole numbers
  in the source) as integers. Values the source reads from the wall clock
  (\<open>nowTime().slice(0, 5)\<close>) or from \<open>Math.random()\<close> are parameters of the handlers.
\<close>

subsection \<open>Crop profiles\<close>

text \<open>
  The keys of \<open>CROP_PROFILES\<close>. The crop selector offers exactly
  \<open>Object.entries(CROP_PROFILES)\<close>, so the active crop is always one of the three keys.
  The fields \<open>emoji\<close>, \<open>shelfLife\<close> and \<open>scienceNote\<close> are display text only and are left out.
\<close>

datatype crop = Tomatoes | Bananas | Potatoes

record profile =
  cargoValue :: rat
  tempDanger :: rat
  tempWarning :: rat
  gforceCritical :: rat
  gforceWarning :: rat
  tiltCritical :: rat
  sensitivity :: string

fun CROP_PROFILES :: "crop \<Rightarrow> profile" where
  "CROP_PROFILES Tomatoes =
     \<lparr>cargoValue = 10000, tempDanger = 30, tempWarning = 27, gforceCritical = 2.0,
      gforceWarning = 1.5, tiltCritical = 25, sensitivity = ''Medium''\<rparr>"
| "CROP_PROFILES Bananas =
     \<lparr>cargoValue = 8000, tempDanger = 25, tempWarning = 22, gforceCritical = 1.5,
      gforceWarning = 1.0, tiltCritical = 20, sensitivity = ''High''\<rparr>"
| "CROP_PROFILES Potatoes =
     \<lparr>cargoValue = 6000, tempDanger = 35, tempWarning = 30, gforceCritical = 3.0,
      gforceWarning = 2.0, tiltCritical = 30, sensitivity = ''Low''\<rparr>"

subsection \<open>Status keys, incidents, temperature samples\<close>

text \<open>The string keys \<open>"critical"\<close>, \<open>"warning"\<close>, \<open>"optimal"\<close>, \<open>"stable"\<close>, \<open>"info"\<close>.\<close>

datatype status_key = critical | warning | optimal | stable | info

text \<open>
  An entry of the incident table. The source's field \<open>id\<close> is called \<open>ident\<close> here and
  \<open>type\<close> is called \<open>type_key\<close>; the pictograph that opens the \<open>event\<close> text of the
  simulated entries is not part of the model.
\<close>

record incident =
  ident :: int
  time :: string
  event :: string
  type_key :: status_key
  gforce :: rat
  temp :: rat
  deduction :: int
  sim :: bool

record sample =
  sample_time :: string
  sample_temp :: rat

definition INITIAL_INCIDENTS :: "incident list" where
  "INITIAL_INCIDENTS =
    [\<lparr>ident = 1, time = ''09:02'', event = ''Trip Started'', type_key = info,
      gforce = 0.2, temp = 24.1, deduction = 0, sim = False\<rparr>,
     \<lparr>ident = 2, time = ''09:47'', event = ''Hard Braking'', type_key = warning,
      gforce = 1.8, temp = 24.8, deduction = 2, sim = False\<rparr>,
     \<lparr>ident = 3, time = ''10:15'', event = ''Severe Pothole'', type_key = critical,
      gforce = 3.1, temp = 25.3, deduction = 5, sim = False\<rparr>,
     \<lparr>ident = 4, time = ''10:52'', event = ''Sharp Corner'', type_key = warning,
      gforce = 1.4, temp = 26.1, deduction = 1, sim = False\<rparr>,
     \<lparr>ident = 5, time = ''11:45'', event = ''AC Fluctuation'', type_key = critical,
      gforce = 0.3, temp = 32.0, deduction = 7, sim = False\<rparr>,
     \<lparr>ident = 6, time = ''12:20'', event = ''Road Vibration'', type_key = warning,
      gforce = 1.1, temp = 29.4, deduction = 1, sim = False\<rparr>,
     \<lparr>ident = 7, time = ''12:58'', event = ''Sudden Stop'', type_key = warning,
      gforce = 2.1, temp = 28.5, deduction = 3, sim = False\<rparr>,
     \<lparr>ident = 8, time = ''13:10'', event = ''Destination Arrived'', type_key = info,
      gforce = 0.1, temp = 28.5, deduction = 0, sim = False\<rparr>]"

definition INITIAL_TEMP_HISTORY :: "sample list" where
  "INITIAL_TEMP_HISTORY =
    [\<lparr>sample_time = ''09:00'', sample_temp = 24.0\<rparr>, \<lparr>sample_time = ''09:30'', sample_temp = 24.3\<rparr>,
     \<lparr>sample_time = ''10:00'', sample_temp = 24.9\<rparr>, \<lparr>sample_time = ''10:15'', sample_temp = 25.3\<rparr>,
     \<lparr>sample_time = ''10:30'', sample_temp = 25.8\<rparr>, \<lparr>sample_time = ''11:00'', sample_temp = 26.5\<rparr>,
     \<lparr>sample_time = ''11:30'', sample_temp = 27.2\<rparr>, \<lparr>sample_time = ''11:45'', sample_temp = 32.0\<rparr>,
     \<lparr>sample_time = ''12:00'', sample_temp = 31.4\<rparr>, \<lparr>sample_time = ''12:15'', sample_temp = 30.1\<rparr>,
     \<lparr>sample_time = ''12:30'', sample_temp = 29.6\<rparr>, \<lparr>sample_time = ''12:45'', sample_temp = 29.1\<rparr>,
     \<lparr>sample_time = ''13:00'', sample_temp = 28.5\<rparr>, \<lparr>sample_time = ''13:10'', sample_temp = 28.5\<rparr>]"

definition BASE_CIS :: int where
  "BASE_CIS = 88"

subsection \<open>Pure helpers\<close>

text \<open>\<open>calcMarketLoss(cis, cargoValue) = -((100 - cis) / 100 * cargoValue)\<close>\<close>

definition calcMarketLoss :: "rat \<Rightarrow> rat \<Rightarrow> rat" where
  "calcMarketLoss score cargo = - ((100 - score) / 100 * cargo)"

text \<open>\<open>computeCIS\<close>: \<open>Array.prototype.reduce\<close> with an initial value is a left fold.\<close>

definition computeCIS :: "incident list \<Rightarrow> int" where
  "computeCIS incs = max 0 (BASE_CIS - foldl (\<lambda>s i. s + deduction i) 0 incs)"

definition getTempStatusKey :: "rat \<Rightarrow> profile \<Rightarrow> status_key" where
  "getTempStatusKey tmp p =
     (if tmp > tempDanger p then critical
      else if tmp > tempWarning p then warning
      else optimal)"

definition getGForceStatusKey :: "rat \<Rightarrow> profile \<Rightarrow> status_key" where
  "getGForceStatusKey g p =
     (if g > gforceCritical p then critical
      else if g > gforceWarning p then warning
      else stable)"

definition getTiltStatusKey :: "rat \<Rightarrow> profile \<Rightarrow> status_key" where
  "getTiltStatusKey tilt p =
     (if tilt > tiltCritical p then critical
      else if tilt > tiltCritical p * 0.6 then warning
      else stable)"

text \<open>
  \<open>+(x).toFixed(1)\<close>: the decimal with one fractional digit nearest to \<open>x\<close>; of two
  equally near candidates \<open>toFixed\<close> takes the larger one for the magnitude of \<open>x\<close>, and
  the sign is put back afterwards. The model rounds the exact value of its argument and
  returns the exact decimal; the code computes the argument in doubles and reads the
  decimal text back as a double, so the two can differ for an argument that lies on or
  next to the midpoint between two decimals. No statement below depends on which way
  such a value is rounded, and the values evaluated below are not affected.
\<close>

definition toFixed1 :: "rat \<Rightarrow> rat" where
  "toFixed1 x =
     (if x < 0 then - (of_int \<lfloor>(- x) * 10 + 1 / 2\<rfloor> / 10)
      else of_int \<lfloor>x * 10 + 1 / 2\<rfloor> / 10)"

text \<open>\<open>h.slice(-n)\<close>: the last \<open>n\<close> elements, all of \<open>h\<close> when it is shorter.\<close>

definition slice_last :: "nat \<Rightarrow> 'a list \<Rightarrow> 'a list" where
  "slice_last n h = drop (length h - n) h"

text \<open>The updater \<open>h => [...h.slice(-19), x]\<close> of the temperature history.\<close>

definition push_sample :: "sample \<Rightarrow> sample list \<Rightarrow> sample list" where
  "push_sample x h = slice_last 19 h @ [x]"

subsection \<open>Session state\<close>

record trip_data =
  cisScore :: int
  currentTemp :: rat
  peakGForce :: rat
  currentTilt :: rat

text \<open>
  The state cells of \<open>Dashboard\<close>. \<open>idRef\<close> is the ref that numbers new incidents. An
  element of \<open>incidents\<close> is \<open>None\<close> where the JavaScript array holds \<open>undefined\<close>. The
  cells \<open>dropOpen\<close> and \<open>drawerOpen\<close> only show and hide panels and are left out.
\<close>

record session =
  crop :: crop
  isAutoPlay :: bool
  flashEvent :: "string option"
  newRowId :: "int option"
  tripData :: trip_data
  incidents :: "incident option list"
  tempHistory :: "sample list"
  idRef :: int

definition initial :: session where
  "initial =
     \<lparr>crop = Tomatoes, isAutoPlay = False, flashEvent = None, newRowId = None,
      tripData = \<lparr>cisScore = computeCIS INITIAL_INCIDENTS, currentTemp = 28.5,
                  peakGForce = 3.1, currentTilt = 12\<rparr>,
      incidents = map Some INITIAL_INCIDENTS,
      tempHistory = INITIAL_TEMP_HISTORY,
      idRef = 100\<rparr>"

subsection \<open>Handlers\<close>

text \<open>\<open>handleTempChange(val)\<close>; \<open>t\<close> is \<open>nowTime().slice(0, 5)\<close>.\<close>

definition handleTempChange :: "string \<Rightarrow> rat \<Rightarrow> session \<Rightarrow> session" where
  "handleTempChange t val s =
     s\<lparr>tripData := (tripData s)\<lparr>currentTemp := val\<rparr>,
       tempHistory := push_sample \<lparr>sample_time = t, sample_temp = val\<rparr> (tempHistory s)\<rparr>"

definition handleGForceChange :: "rat \<Rightarrow> session \<Rightarrow> session" where
  "handleGForceChange val s = s\<lparr>tripData := (tripData s)\<lparr>peakGForce := val\<rparr>\<rparr>"

text \<open>
  \<open>handleInject(type)\<close>. The three branches build \<open>entry\<close> and update \<open>tripData\<close> (and
  the history, for \<open>"ac"\<close>); with any other \<open>type\<close> no branch runs and \<open>entry\<close> stays
  \<open>undefined\<close>. The code after the branches runs in every case: the id was taken from
  the incremented ref before the branches, and \<open>entry\<close> is appended whatever it is.
  The readings copied into \<open>entry\<close> are those of the \<open>tripData\<close> the callback closed
  over (\<open>useCallback\<close> with dependency \<open>tripData\<close>): the value of the last render, which
  is the parameter \<open>r\<close> and may be older than the current state. The updaters of
  \<open>tripData\<close> work on the current value \<open>d\<close>.
\<close>

definition handleInject :: "string \<Rightarrow> string \<Rightarrow> trip_data \<Rightarrow> session \<Rightarrow> session" where
  "handleInject t ty r s =
     (let i = idRef s + 1;
          d = tripData s;
          (entry, d', h') =
            (if ty = ''pothole'' then
               (Some \<lparr>ident = i, time = t, event = ''Simulated Pothole'', type_key = critical,
                      gforce = 3.5, temp = currentTemp r, deduction = 5, sim = True\<rparr>,
                d\<lparr>peakGForce := 3.5, cisScore := max 0 (cisScore d - 5)\<rparr>,
                tempHistory s)
             else if ty = ''ac'' then
               (Some \<lparr>ident = i, time = t, event = ''Simulated AC Failure'', type_key = critical,
                      gforce = peakGForce r, temp = 35.0, deduction = 10, sim = True\<rparr>,
                d\<lparr>currentTemp := 35.0, cisScore := max 0 (cisScore d - 10)\<rparr>,
                push_sample \<lparr>sample_time = t, sample_temp = 35.0\<rparr> (tempHistory s))
             else if ty = ''shift'' then
               (Some \<lparr>ident = i, time = t, event = ''Simulated Cargo Shift'', type_key = critical,
                      gforce = peakGForce r, temp = currentTemp r, deduction = 6, sim = True\<rparr>,
                d\<lparr>currentTilt := 28, cisScore := max 0 (cisScore d - 6)\<rparr>,
                tempHistory s)
             else (None, d, tempHistory s))
      in s\<lparr>idRef := i, tripData := d', tempHistory := h',
           incidents := incidents s @ [entry],
           newRowId := Some i, flashEvent := Some ty\<rparr>)"

text \<open>
  The body of the interval callback of the auto-play effect, with the updater it passes
  to \<open>setTripData\<close> run once, as in a production build. \<open>r1\<close>, \<open>r2\<close>, \<open>r3\<close> are the
  three \<open>Math.random()\<close> draws of the updater (drift, shock chance, shock size), \<open>t\<close> the
  clock text, read once by the callback before it calls \<open>setTripData\<close>.
\<close>

definition tick :: "string \<Rightarrow> rat \<Rightarrow> rat \<Rightarrow> rat \<Rightarrow> session \<Rightarrow> session" where
  "tick t r1 r2 r3 s =
     (let p = CROP_PROFILES (crop s);
          prev = tripData s;
          drift = toFixed1 (r1 * 1.0 - 0.5);
          newTemp = min 45 (max 15 (toFixed1 (currentTemp prev + drift)));
          shockFires = (r2 < 0.3);
          newG = (if shockFires then toFixed1 (0.5 + r3 * (gforceCritical p * 1.8))
                  else peakGForce prev);
          h' = push_sample \<lparr>sample_time = t, sample_temp = newTemp\<rparr> (tempHistory s)
      in if shockFires \<and> newG > gforceCritical p then
           (let pen = (if newG > gforceCritical p * 1.5 then 3 else 1);
                newCIS = max 0 (cisScore prev - pen);
                i = idRef s + 1;
                entry = \<lparr>ident = i, time = t, event = ''Auto: Road Shock'',
                         type_key = (if newG > gforceCritical p * 1.3 then critical else warning),
                         gforce = newG, temp = newTemp, deduction = pen, sim = True\<rparr>
            in s\<lparr>idRef := i, incidents := incidents s @ [Some entry], newRowId := Some i,
                 tempHistory := h',
                 tripData := prev\<lparr>currentTemp := newTemp, peakGForce := newG,
                                  cisScore := newCIS\<rparr>\<rparr>)
         else s\<lparr>tempHistory := h',
                tripData := prev\<lparr>currentTemp := newTemp, peakGForce := newG,
                                 cisScore := cisScore prev\<rparr>\<rparr>)"

text \<open>
  The entry point renders \<open>Dashboard\<close> inside \<open>StrictMode\<close>. In a development build React
  then calls the updater passed to \<open>setTripData\<close> twice for one tick, both times on the
  same \<open>prev\<close>, and keeps the \<open>tripData\<close> of one call only (\<open>keep_first\<close> says which).
  The updater is not pure: each call makes its own three draws (\<open>r1 r2 r3\<close>, then
  \<open>q1 q2 q3\<close>), increments \<open>idRef.current\<close> when its shock counts, and queues its own
  \<open>setIncidents\<close>, \<open>setNewRowId\<close> and \<open>setTempHistory\<close>, so these happen for both calls,
  the second after the first.
\<close>

definition tick_strict ::
  "bool \<Rightarrow> string \<Rightarrow> rat \<Rightarrow> rat \<Rightarrow> rat \<Rightarrow> rat \<Rightarrow> rat \<Rightarrow> rat \<Rightarrow> session \<Rightarrow> session" where
  "tick_strict keep_first t r1 r2 r3 q1 q2 q3 s =
     (let s1 = tick t r1 r2 r3 s;
          s2 = tick t q1 q2 q3 (s1\<lparr>tripData := tripData s\<rparr>)
      in if keep_first then s2\<lparr>tripData := tripData s1\<rparr> else s2)"


subsection \<open>Events and reachable states\<close>

text \<open>
  What can happen to a session: the two sliders, an injection, a tick of the auto-play
  interval, the crop selector, the auto-play button (\<open>setIsAutoPlay(v => !v)\<close>) and the two
  timeouts that clear the row highlight and the button flash. A step takes the render
  to be up to date when an injection starts (its callback closed over the current
  \<open>tripData\<close>) and runs the updater of a tick once.
\<close>

datatype event =
    TempChange string rat
  | GForceChange rat
  | Inject string string
  | Tick string rat rat rat
  | SetCrop crop
  | ToggleAutoPlay
  | ClearNewRow
  | ClearFlash

fun step :: "event \<Rightarrow> session \<Rightarrow> session" where
  "step (TempChange t v) s = handleTempChange t v s"
| "step (GForceChange v) s = handleGForceChange v s"
| "step (Inject t ty) s = handleInject t ty (tripData s) s"
| "step (Tick t r1 r2 r3) s = tick t r1 r2 r3 s"
| "step (SetCrop c) s = s\<lparr>crop := c\<rparr>"
| "step ToggleAutoPlay s = s\<lparr>isAutoPlay := \<not> isAutoPlay s\<rparr>"
| "step ClearNewRow s = s\<lparr>newRowId := None\<rparr>"
| "step ClearFlash s = s\<lparr>flashEvent := None\<rparr>"

text \<open>
  The interval is armed only while \<open>isAutoPlay\<close> holds, and \<open>Math.random()\<close> is in \<open>[0, 1)\<close>.
\<close>

fun enabled :: "event \<Rightarrow> session \<Rightarrow> bool" where
  "enabled (Tick t r1 r2 r3) s =
     (isAutoPlay s \<and> 0 \<le> r1 \<and> r1 < 1 \<and> 0 \<le> r2 \<and> r2 < 1 \<and> 0 \<le> r3 \<and> r3 < 1)"
| "enabled e s = True"

inductive reachable :: "session \<Rightarrow> bool" where
  init: "reachable initial"
| step: "reachable s \<Longrightarrow> enabled e s \<Longrightarrow> reachable (step e s)"

text \<open>Running a list of events from a state, oldest first.\<close>

fun run :: "event list \<Rightarrow> session \<Rightarrow> session" where
  "run [] s = s"
| "run (e # es) s = run es (step e s)"

text \<open>The defined entries of a log, in order.\<close>

fun entries :: "incident option list \<Rightarrow> incident list" where
  "entries [] = []"
| "entries (None # xs) = entries xs"
| "entries (Some i # xs) = i # entries xs"

subsection \<open>Invariants of the incident log\<close>

text \<open>
  Ids grow along the log and none exceeds the counter, so the next id handed out
  (\<open>idRef + 1\<close>) is new.
\<close>

definition ids_ok :: "session \<Rightarrow> bool" where
  "ids_ok s = (sorted_wrt (<) (map ident (entries (incidents s)))
     \<and> (\<forall>i \<in> set (entries (incidents s)). ident i \<le> idRef s))"

text \<open>
  The log starts with the seed incidents, the counter never drops below its initial
  value 100, and every entry after the seeds was numbered by the counter.
\<close>

definition seeds_ok :: "session \<Rightarrow> bool" where
  "seeds_ok s = (take (length INITIAL_INCIDENTS) (incidents s) = map Some INITIAL_INCIDENTS
     \<and> 100 \<le> idRef s
     \<and> (\<forall>d \<in> set (entries (drop (length INITIAL_INCIDENTS) (incidents s))). 100 < ident d))"

subsection \<open>Samples pushed by a run\<close>

text \<open>
  The sample an event hands to the history updater, if it hands one: both sliders'
  temperature handler, the \<open>"ac"\<close> injection and every tick push one; nothing else does.
  \<open>pushed\<close> collects them along a run, oldest first.
\<close>

fun new_sample :: "event \<Rightarrow> session \<Rightarrow> sample option" where
  "new_sample (TempChange t v) s = Some \<lparr>sample_time = t, sample_temp = v\<rparr>"
| "new_sample (Inject t ty) s =
     (if ty = ''ac'' then Some \<lparr>sample_time = t, sample_temp = 35.0\<rparr> else None)"
| "new_sample (Tick t r1 r2 r3) s =
     Some \<lparr>sample_time = t, sample_temp = currentTemp (tripData (tick t r1 r2 r3 s))\<rparr>"
| "new_sample e s = None"

fun pushed :: "event list \<Rightarrow> session \<Rightarrow> sample list" where
  "pushed [] s = []"
| "pushed (e # es) s =
     (case new_sample e s of None \<Rightarrow> [] | Some x \<Rightarrow> [x]) @ pushed es (step e s)"

text \<open>
  One tick of a development build from the initial session with auto-play switched on,
  both calls of the updater drawing 0.75 (drift), 0.25 (the shock fires) and 0.9375
  (shock size).
\<close>

definition strict_tick_example :: "bool \<Rightarrow> session" where
  "strict_tick_example keep_first =
     tick_strict keep_first ''12:00'' 0.75 0.25 0.9375 0.75 0.25 0.9375
       (step ToggleAutoPlay initial)"

text \<open>The initial session with the score put back to the base score 88.\<close>

definition session_at_88 :: session where
  "session_at_88 = initial\<lparr>tripData := (tripData initial)\<lparr>cisScore := 88\<rparr>\<rparr>"

section \<open>Auxiliary facts\<close>

lemma foldl_deduction: "foldl (\<lambda>s i. s + deduction i) a xs = a + sum_list (map deduction xs)"
  by (induction xs arbitrary: a) simp_all

lemma computeCIS_sum: "computeCIS xs = max 0 (88 - sum_list (map deduction xs))"
  by (simp add: computeCIS_def BASE_CIS_def foldl_deduction)

lemma computeCIS_snoc:
  "0 \<le> deduction i \<Longrightarrow> computeCIS (xs @ [i]) = max 0 (computeCIS xs - deduction i)"
  by (simp add: computeCIS_sum)

lemma entries_append: "entries (xs @ ys) = entries xs @ entries ys"
  by (induction xs rule: entries.induct) simp_all

lemma entries_map_Some: "entries (map Some xs) = xs"
  by (induction xs) simp_all

text \<open>
  What one event does to the log, the counter and the score: nothing, or one \<open>undefined\<close>
  appended with the counter advanced, or one incident appended that carries the new
  counter value and one of the five constant deductions, which is taken off the score.
\<close>

lemma step_log:
  "(incidents (step e s) = incidents s \<and> idRef (step e s) = idRef s
      \<and> cisScore (tripData (step e s)) = cisScore (tripData s))
   \<or> (incidents (step e s) = incidents s @ [None] \<and> idRef (step e s) = idRef s + 1
      \<and> cisScore (tripData (step e s)) = cisScore (tripData s))
   \<or> (\<exists>i. incidents (step e s) = incidents s @ [Some i] \<and> idRef (step e s) = idRef s + 1
      \<and> ident i = idRef s + 1 \<and> deduction i \<in> {1, 3, 5, 6, 10}
      \<and> cisScore (tripData (step e s)) = max 0 (cisScore (tripData s) - deduction i))"
proof (cases e)
  case (Inject t ty)
  then show ?thesis by (simp add: handleInject_def Let_def)
next
  case (Tick t r1 r2 r3)
  then show ?thesis by (simp add: tick_def Let_def)
qed (simp_all add: handleTempChange_def handleGForceChange_def)

lemma initial_score: "cisScore (tripData initial) = computeCIS (entries (incidents initial))"
  by (simp add: initial_def entries_map_Some)

lemma reachable_score:
  "reachable s \<Longrightarrow> cisScore (tripData s) = computeCIS (entries (incidents s))"
proof (induction rule: reachable.induct)
  case init
  show ?case by (rule initial_score)
next
  case (step s e)
  from step_log [of e s] step.IH show ?case
    by (auto simp: entries_append computeCIS_snoc)
qed

lemma reachable_score_le: "reachable s \<Longrightarrow> cisScore (tripData s) \<le> 69"
proof (induction rule: reachable.induct)
  case init
  show ?case by (simp add: initial_def computeCIS_sum INITIAL_INCIDENTS_def)
next
  case (step s e)
  from step_log [of e s] step.IH show ?case by auto
qed

lemma ids_ok_same:
  "ids_ok s \<Longrightarrow> incidents s' = incidents s \<Longrightarrow> idRef s' = idRef s \<Longrightarrow> ids_ok s'"
  by (simp add: ids_ok_def)

lemma ids_ok_undef:
  "ids_ok s \<Longrightarrow> incidents s' = incidents s @ [None] \<Longrightarrow> idRef s' = idRef s + 1 \<Longrightarrow> ids_ok s'"
  by (fastforce simp: ids_ok_def entries_append)

lemma ids_ok_new:
  "ids_ok s \<Longrightarrow> incidents s' = incidents s @ [Some i] \<Longrightarrow> idRef s' = idRef s + 1
     \<Longrightarrow> ident i = idRef s + 1 \<Longrightarrow> ids_ok s'"
  by (fastforce simp: ids_ok_def entries_append sorted_wrt_append)

lemma reachable_ids: "reachable s \<Longrightarrow> ids_ok s"
proof (induction rule: reachable.induct)
  case init
  show ?case by (simp add: ids_ok_def initial_def entries_map_Some INITIAL_INCIDENTS_def)
next
  case (step s e)
  from step_log [of e s] step.IH show ?case
    by (blast intro: ids_ok_same ids_ok_undef ids_ok_new)
qed

lemma seeds_ok_length: "seeds_ok s \<Longrightarrow> length INITIAL_INCIDENTS \<le> length (incidents s)"
proof -
  assume "seeds_ok s"
  then have "length (take (length INITIAL_INCIDENTS) (incidents s)) = length INITIAL_INCIDENTS"
    by (simp add: seeds_ok_def del: length_take)
  then show ?thesis by simp
qed

lemma seeds_ok_same:
  "seeds_ok s \<Longrightarrow> incidents s' = incidents s \<Longrightarrow> idRef s' = idRef s \<Longrightarrow> seeds_ok s'"
  by (simp add: seeds_ok_def)

lemma seeds_ok_snoc:
  assumes "seeds_ok s" and "incidents s' = incidents s @ [x]" and "idRef s' = idRef s + 1"
    and "\<And>i. x = Some i \<Longrightarrow> ident i = idRef s + 1"
  shows "seeds_ok s'"
proof -
  from assms(1) have len: "length INITIAL_INCIDENTS \<le> length (incidents s)"
    by (rule seeds_ok_length)
  from assms(1) have lo: "100 \<le> idRef s" by (simp add: seeds_ok_def)
  have "\<forall>d \<in> set (entries [x]). 100 < ident d"
    using assms(4) lo by (cases x) auto
  with assms(1,2,3) len show ?thesis
    by (auto simp: seeds_ok_def entries_append)
qed

lemma reachable_seeds: "reachable s \<Longrightarrow> seeds_ok s"
proof (induction rule: reachable.induct)
  case init
  show ?case by (simp add: seeds_ok_def initial_def)
next
  case (step s e)
  from step_log [of e s] step.IH show ?case
    by (blast intro: seeds_ok_same seeds_ok_snoc)
qed

lemma seed_ids: "\<forall>i \<in> set INITIAL_INCIDENTS. ident i \<le> 8"
  by (simp add: INITIAL_INCIDENTS_def)

lemma reachable_deductions:
  "reachable s \<Longrightarrow> \<forall>i \<in> set (entries (incidents s)). deduction i \<in> {0, 1, 2, 3, 5, 6, 7, 10}"
proof (induction rule: reachable.induct)
  case init
  show ?case by (simp add: initial_def entries_map_Some INITIAL_INCIDENTS_def)
next
  case (step s e)
  from step_log [of e s] consider
    "incidents (step e s) = incidents s" | "incidents (step e s) = incidents s @ [None]"
    | i where "incidents (step e s) = incidents s @ [Some i]" "deduction i \<in> {1, 3, 5, 6, 10}"
    by blast
  then show ?case
  proof cases
    case 1
    with step.IH show ?thesis by simp
  next
    case 2
    with step.IH show ?thesis by (simp add: entries_append)
  next
    case 3
    with step.IH show ?thesis by (simp add: entries_append) blast
  qed
qed

lemma reachable_inject_pothole: "reachable (handleInject ''12:00'' ''pothole'' (tripData initial) initial)"
  using reachable.step [OF reachable.init, of "Inject ''12:00'' ''pothole''"] by simp

lemma inject_pothole_log:
  "entries (incidents (handleInject ''12:00'' ''pothole'' (tripData initial) initial)) =
     INITIAL_INCIDENTS @
     [\<lparr>ident = 101, time = ''12:00'', event = ''Simulated Pothole'', type_key = critical,
       gforce = 3.5, temp = 28.5, deduction = 5, sim = True\<rparr>]"
  by (simp add: handleInject_def initial_def Let_def entries_append
      entries_map_Some)

lemma slice_last_rev: "slice_last n xs = rev (take n (rev xs))"
  by (simp add: slice_last_def take_rev)

lemma slice_last_absorb: "slice_last n (slice_last n ys @ zs) = slice_last n (ys @ zs)"
  by (simp add: slice_last_rev)

lemma push_sample_slice: "push_sample x h = slice_last 20 (h @ [x])"
  by (simp add: push_sample_def slice_last_rev)

lemma length_slice_last: "length (slice_last n xs) = min n (length xs)"
  by (simp add: slice_last_def)

lemma length_push_sample: "length (push_sample x h) \<le> 20"
  by (simp add: push_sample_def length_slice_last)

lemma step_history:
  "tempHistory (step e s) =
     (case new_sample e s of None \<Rightarrow> tempHistory s | Some x \<Rightarrow> push_sample x (tempHistory s))"
proof (cases e)
  case (Inject t ty)
  then show ?thesis by (simp add: handleInject_def Let_def)
next
  case (Tick t r1 r2 r3)
  then show ?thesis by (simp add: tick_def Let_def)
qed (simp_all add: handleTempChange_def handleGForceChange_def)

lemma run_history:
  "tempHistory (run es s) =
     (if pushed es s = [] then tempHistory s
      else slice_last 20 (tempHistory s @ pushed es s))"
proof (induction es arbitrary: s)
  case Nil
  show ?case by simp
next
  case (Cons e es)
  show ?case
  proof (cases "new_sample e s")
    case None
    with Cons [of "step e s"] step_history [of e s] show ?thesis by simp
  next
    case (Some x)
    with step_history [of e s]
    have h: "tempHistory (step e s) = slice_last 20 (tempHistory s @ [x])"
      by (simp add: push_sample_slice)
    show ?thesis
    proof (cases "pushed es (step e s) = []")
      case True
      with Cons [of "step e s"] h Some show ?thesis by simp
    next
      case False
      with Cons [of "step e s"] h Some show ?thesis
        by (simp add: slice_last_absorb)
    qed
  qed
qed

lemma reachable_history: "reachable s \<Longrightarrow> length (tempHistory s) \<le> 20"
proof (induction rule: reachable.induct)
  case init
  show ?case by (simp add: initial_def INITIAL_TEMP_HISTORY_def)
next
  case (step s e)
  with step_history [of e s] show ?case
    by (cases "new_sample e s") (simp_all add: length_push_sample)
qed

lemma slice_last_25: "length p = 25 \<Longrightarrow> slice_last 20 (h @ p) = drop 5 p"
  by (simp add: slice_last_def)

lemma inject_pothole_score:
  "cisScore (tripData (handleInject t ''pothole'' r s)) = max 0 (cisScore (tripData s) - 5)"
  by (simp add: handleInject_def Let_def)

lemma inject_pothole_funpow:
  "cisScore (tripData ((handleInject t ''pothole'' r ^^ Suc n) s)) =
     max 0 (cisScore (tripData s) - 5 * (int n + 1))"
proof (induction n)
  case 0
  show ?case by (simp add: inject_pothole_score)
next
  case (Suc n)
  have "cisScore (tripData ((handleInject t ''pothole'' r ^^ Suc (Suc n)) s)) =
      max 0 (cisScore (tripData ((handleInject t ''pothole'' r ^^ Suc n) s)) - 5)"
    by (simp add: inject_pothole_score)
  with Suc show ?case by simp
qed


lemma pushed_replicate_temp:
  "pushed (replicate n (TempChange t v)) s = replicate n \<lparr>sample_time = t, sample_temp = v\<rparr>"
  by (induction n arbitrary: s) simp_all

section \<open>Classification and loss estimate\<close>

text \<open>
  C6. The three status functions compare with a strict greater-than at each upper bound, so a
  reading that equals a threshold stays in the lower tier: the temperature key is
  critical exactly above \<open>tempDanger\<close>, warning exactly in \<open>(tempWarning, tempDanger]\<close> and
  optimal otherwise; the shock key likewise with \<open>gforceCritical\<close> and \<open>gforceWarning\<close>;
  the tilt key is critical exactly above \<open>tiltCritical\<close> and warning exactly in
  \<open>(0.6 * tiltCritical, tiltCritical]\<close>. For Tomatoes, 30.0 degrees is a warning and 30.1
  degrees is critical. Being HOL functions of the reading and the profile alone, the
  three are pure and deterministic.
\<close>

theorem C6_classification_strict:
  "(getTempStatusKey tmp p = critical) = (tmp > tempDanger p)
   \<and> (getTempStatusKey tmp p = warning) = (tempDanger p \<ge> tmp \<and> tmp > tempWarning p)
   \<and> (getTempStatusKey tmp p = optimal) = (tmp \<le> tempDanger p \<and> tmp \<le> tempWarning p)
   \<and> (getGForceStatusKey g p = critical) = (g > gforceCritical p)
   \<and> (getGForceStatusKey g p = warning) = (gforceCritical p \<ge> g \<and> g > gforceWarning p)
   \<and> (getGForceStatusKey g p = stable) = (g \<le> gforceCritical p \<and> g \<le> gforceWarning p)
   \<and> (getTiltStatusKey tilt p = critical) = (tilt > tiltCritical p)
   \<and> (getTiltStatusKey tilt p = warning) = (tiltCritical p \<ge> tilt \<and> tilt > 0.6 * tiltCritical p)
   \<and> (getTiltStatusKey tilt p = stable) = (tilt \<le> tiltCritical p \<and> tilt \<le> 0.6 * tiltCritical p)
   \<and> tempDanger (CROP_PROFILES Tomatoes) = 30
   \<and> getTempStatusKey 30.0 (CROP_PROFILES Tomatoes) = warning
   \<and> getTempStatusKey 30.1 (CROP_PROFILES Tomatoes) = critical"
  by (simp add: getTempStatusKey_def getGForceStatusKey_def getTiltStatusKey_def
      not_less mult.commute)

text \<open>
  C10. The loss estimate is \<open>-((100 - score) / 100) * cargoValue\<close>: zero at score 100,
  the whole cargo value (negated) at score 0, and for a positive cargo value a lower
  score gives a strictly lower (more negative) estimate, hence, for scores up to 100, a
  strictly larger loss magnitude. At score 69 and cargo value 10000 it is -3100, which
  is what the dashboard shows for the initial session.
\<close>

theorem C10_market_loss:
  "calcMarketLoss score v = - ((100 - score) / 100) * v
   \<and> calcMarketLoss 100 v = 0
   \<and> calcMarketLoss 0 v = - v
   \<and> (0 < v \<and> s1 < s2 \<longrightarrow> calcMarketLoss s1 v < calcMarketLoss s2 v)
   \<and> (0 < v \<and> s1 < s2 \<and> s2 \<le> 100 \<longrightarrow> \<bar>calcMarketLoss s2 v\<bar> < \<bar>calcMarketLoss s1 v\<bar>)
   \<and> calcMarketLoss 69 10000 = - 3100
   \<and> calcMarketLoss (of_int (cisScore (tripData initial)))
        (cargoValue (CROP_PROFILES (crop initial))) = - 3100"
proof -
  have mono: "calcMarketLoss s1 v < calcMarketLoss s2 v" if "0 < v" "s1 < s2"
    using that by (simp add: calcMarketLoss_def divide_strict_right_mono)
  have neg: "calcMarketLoss s v \<le> 0" if "0 < v" "s \<le> 100" for s
    using that by (simp add: calcMarketLoss_def)
  have mag: "\<bar>calcMarketLoss s2 v\<bar> < \<bar>calcMarketLoss s1 v\<bar>" if "0 < v" "s1 < s2" "s2 \<le> 100"
    using mono [OF that(1,2)] neg [of s1] neg [of s2] that by simp
  have init: "cisScore (tripData initial) = 69"
    by (simp add: initial_def computeCIS_sum INITIAL_INCIDENTS_def)
  have crop0: "cargoValue (CROP_PROFILES (crop initial)) = 10000"
    by (simp add: initial_def)
  have shown: "calcMarketLoss (of_int (cisScore (tripData initial)))
        (cargoValue (CROP_PROFILES (crop initial))) = - 3100"
    unfolding init crop0 by (simp add: calcMarketLoss_def)
  show ?thesis
    using mono mag shown by (simp add: calcMarketLoss_def)
qed

theorem C10_market_loss_witness:
  "(0::rat) < 10000 \<and> (59::rat) < 69 \<and> (69::rat) \<le> 100
   \<and> calcMarketLoss 59 10000 < calcMarketLoss 69 10000
   \<and> \<bar>calcMarketLoss 69 10000\<bar> < \<bar>calcMarketLoss 59 10000\<bar>"
  using C10_market_loss [of 0 10000 59 69] by simp

section \<open>Score and ids along the incident log\<close>

text \<open>
  C1. In a development build the score does not stay equal to \<open>max(0, 88 - sum of the
  deductions in the log)\<close>. From the initial session with auto-play on (crop Tomatoes,
  score 69), one tick whose updater is called twice, each call drawing 0.75, 0.25 and
  0.9375, logs two road shocks of 3.9 g (ids 101 and 102, deduction 3 each) and pushes
  two history samples, but takes 3 off the score once: the score is 66 while the
  deductions in the log add up to 25, for which \<open>computeCIS\<close> gives 63. This is so whichever
  of the two results React keeps. When the updater runs once per tick the equation is
  an invariant of the reachable states (lemma \<open>reachable_score\<close>).
\<close>

theorem C1_strict_tick_score:
  "isAutoPlay (step ToggleAutoPlay initial)
   \<and> cisScore (tripData (step ToggleAutoPlay initial)) = 69
   \<and> cisScore (tripData (strict_tick_example keep_first)) = 66
   \<and> map deduction (entries (incidents (strict_tick_example keep_first)))
       = [0, 2, 5, 1, 7, 1, 3, 0, 3, 3]
   \<and> map ident (entries (incidents (strict_tick_example keep_first)))
       = [1, 2, 3, 4, 5, 6, 7, 8, 101, 102]
   \<and> map gforce (drop 8 (entries (incidents (strict_tick_example keep_first)))) = [3.9, 3.9]
   \<and> sum_list (map deduction (entries (incidents (strict_tick_example keep_first)))) = 25
   \<and> computeCIS (entries (incidents (strict_tick_example keep_first))) = 63
   \<and> cisScore (tripData (strict_tick_example keep_first))
       \<noteq> max 0 (88 - sum_list (map deduction (entries (incidents (strict_tick_example keep_first)))))
   \<and> idRef (strict_tick_example keep_first) = 102
   \<and> length (tempHistory (strict_tick_example keep_first)) = 16"
  by (cases keep_first)
    (simp_all add: strict_tick_example_def tick_strict_def tick_def toFixed1_def Let_def
      initial_def computeCIS_sum INITIAL_INCIDENTS_def INITIAL_TEMP_HISTORY_def
      push_sample_def slice_last_def entries_append entries_map_Some floor_eq_iff)

text \<open>
  C7. In every reachable state the ids of the incidents in the log are strictly
  increasing in log order, hence pairwise different, and none exceeds the counter, so
  an id is never handed out twice. The log still starts with the eight seed incidents;
  their ids are at most 8, below the initial counter value 100, and every incident after
  them has an id above 100, hence above every seed id. A step never removes or changes
  an entry. Selecting another crop is one of the events and leaves log and counter alone.
\<close>

theorem C7_ids_increasing:
  assumes "reachable s"
  shows "sorted_wrt (<) (map ident (entries (incidents s)))
    \<and> distinct (map ident (entries (incidents s)))
    \<and> (\<forall>i \<in> set (entries (incidents s)). ident i \<le> idRef s)
    \<and> take (length INITIAL_INCIDENTS) (incidents s) = map Some INITIAL_INCIDENTS
    \<and> (\<forall>i \<in> set INITIAL_INCIDENTS. ident i < idRef initial)
    \<and> (\<forall>d \<in> set (entries (drop (length INITIAL_INCIDENTS) (incidents s))).
          \<forall>i \<in> set INITIAL_INCIDENTS. ident i < ident d)
    \<and> (\<forall>e. take (length (incidents s)) (incidents (step e s)) = incidents s)
    \<and> (\<forall>c. incidents (step (SetCrop c) s) = incidents s \<and> idRef (step (SetCrop c) s) = idRef s)"
proof -
  from assms have ids: "ids_ok s" by (rule reachable_ids)
  from assms have seeds: "seeds_ok s" by (rule reachable_seeds)
  from ids have srt: "sorted_wrt (<) (map ident (entries (incidents s)))"
    by (simp add: ids_ok_def)
  then have dist: "distinct (map ident (entries (incidents s)))"
    by (simp add: strict_sorted_iff)
  have seed_lt: "\<forall>i \<in> set INITIAL_INCIDENTS. ident i < idRef initial"
    using seed_ids by (fastforce simp: initial_def)
  have dyn: "\<forall>d \<in> set (entries (drop (length INITIAL_INCIDENTS) (incidents s))).
          \<forall>i \<in> set INITIAL_INCIDENTS. ident i < ident d"
    using seeds seed_ids by (fastforce simp: seeds_ok_def)
  have keep: "take (length (incidents s)) (incidents (step e s)) = incidents s" for e
    using step_log [of e s] by auto
  from srt dist ids seeds seed_lt dyn keep show ?thesis
    by (simp add: ids_ok_def seeds_ok_def)
qed

theorem C7_ids_increasing_witness:
  "reachable (handleInject ''12:00'' ''pothole'' (tripData initial) initial)
   \<and> map ident (entries (incidents (handleInject ''12:00'' ''pothole'' (tripData initial) initial)))
       = [1, 2, 3, 4, 5, 6, 7, 8, 101]
   \<and> sorted_wrt (<) (map ident (entries (incidents (handleInject ''12:00'' ''pothole'' (tripData initial) initial))))"
  using C7_ids_increasing [OF reachable_inject_pothole] reachable_inject_pothole
  by (simp add: inject_pothole_log INITIAL_INCIDENTS_def)


section \<open>Scenario injection\<close>

text \<open>
  C2. \<open>handleInject\<close> applies the table entry of a scenario as one update of the snapshot
  and one appended incident, whatever the prior state and whatever render the callback
  closed over. The keys in the code are \<open>"pothole"\<close>, \<open>"ac"\<close> (the AC failure) and
  \<open>"shift"\<close> (the cargo shift). Pothole: only \<open>peakGForce\<close> (to 3.5) and the score (minus
  5, floored at 0) change, the history is kept, and the one incident appended has
  deduction 5 and type critical. AC failure: \<open>currentTemp\<close> becomes 35.0, deduction 10,
  critical, and the history becomes its last 19 samples followed by one new sample of
  35.0 degrees, so the new sample is its last element and, while there were fewer than
  20, the history is the old one with the sample appended. Cargo shift: \<open>currentTilt\<close>
  becomes 28, deduction 6, critical. After \<open>n + 1\<close> pothole injections the score is
  \<open>max(0, score - 5 (n + 1))\<close>; from score 88 it is 0 after 20 of them and not negative
  after any number of them.
\<close>

theorem C2_injection_table:
  "tripData (handleInject t ''pothole'' r s) =
      (tripData s)\<lparr>peakGForce := 3.5, cisScore := max 0 (cisScore (tripData s) - 5)\<rparr>
   \<and> tempHistory (handleInject t ''pothole'' r s) = tempHistory s
   \<and> incidents (handleInject t ''pothole'' r s) = incidents s @
        [Some \<lparr>ident = idRef s + 1, time = t, event = ''Simulated Pothole'', type_key = critical,
               gforce = 3.5, temp = currentTemp r, deduction = 5, sim = True\<rparr>]
   \<and> tripData (handleInject t ''ac'' r s) =
      (tripData s)\<lparr>currentTemp := 35.0, cisScore := max 0 (cisScore (tripData s) - 10)\<rparr>
   \<and> tempHistory (handleInject t ''ac'' r s) =
        drop (length (tempHistory s) - 19) (tempHistory s)
          @ [\<lparr>sample_time = t, sample_temp = 35.0\<rparr>]
   \<and> last (tempHistory (handleInject t ''ac'' r s)) = \<lparr>sample_time = t, sample_temp = 35.0\<rparr>
   \<and> length (tempHistory (handleInject t ''ac'' r s)) = min 19 (length (tempHistory s)) + 1
   \<and> (length (tempHistory s) < 20 \<longrightarrow>
        tempHistory (handleInject t ''ac'' r s) =
          tempHistory s @ [\<lparr>sample_time = t, sample_temp = 35.0\<rparr>])
   \<and> incidents (handleInject t ''ac'' r s) = incidents s @
        [Some \<lparr>ident = idRef s + 1, time = t, event = ''Simulated AC Failure'', type_key = critical,
               gforce = peakGForce r, temp = 35.0, deduction = 10, sim = True\<rparr>]
   \<and> tripData (handleInject t ''shift'' r s) =
      (tripData s)\<lparr>currentTilt := 28, cisScore := max 0 (cisScore (tripData s) - 6)\<rparr>
   \<and> tempHistory (handleInject t ''shift'' r s) = tempHistory s
   \<and> incidents (handleInject t ''shift'' r s) = incidents s @
        [Some \<lparr>ident = idRef s + 1, time = t, event = ''Simulated Cargo Shift'', type_key = critical,
               gforce = peakGForce r, temp = currentTemp r, deduction = 6,
               sim = True\<rparr>]
   \<and> idRef (handleInject t ''pothole'' r s) = idRef s + 1
   \<and> idRef (handleInject t ''ac'' r s) = idRef s + 1
   \<and> idRef (handleInject t ''shift'' r s) = idRef s + 1
   \<and> peakGForce (tripData (handleInject t ''pothole'' r s)) = 3.5
   \<and> cisScore (tripData ((handleInject t ''pothole'' r ^^ Suc n) s)) =
        max 0 (cisScore (tripData s) - 5 * (int n + 1))
   \<and> (cisScore (tripData s) = 88 \<longrightarrow>
        cisScore (tripData ((handleInject t ''pothole'' r ^^ 20) s)) = 0
        \<and> (\<forall>k. 0 \<le> cisScore (tripData ((handleInject t ''pothole'' r ^^ k) s))))"
proof -
  have twenty: "cisScore (tripData ((handleInject t ''pothole'' r ^^ 20) s)) = 0"
    if "cisScore (tripData s) = 88"
  proof -
    have "(20::nat) = Suc 19" by simp
    then have "cisScore (tripData ((handleInject t ''pothole'' r ^^ 20) s)) =
        max 0 (cisScore (tripData s) - 5 * (int 19 + 1))"
      by (simp only: inject_pothole_funpow)
    with that show ?thesis by simp
  qed
  have never: "0 \<le> cisScore (tripData ((handleInject t ''pothole'' r ^^ k) s))"
    if "cisScore (tripData s) = 88" for k
  proof (cases k)
    case 0
    with that show ?thesis by simp
  next
    case (Suc n)
    then show ?thesis by (simp add: inject_pothole_funpow del: funpow.simps)
  qed
  have rest: "cisScore (tripData ((handleInject t ''pothole'' r ^^ Suc n) s)) =
        max 0 (cisScore (tripData s) - 5 * (int n + 1))"
    by (rule inject_pothole_funpow)
  have hist: "tempHistory (handleInject t ''ac'' r s) =
        drop (length (tempHistory s) - 19) (tempHistory s)
          @ [\<lparr>sample_time = t, sample_temp = 35.0\<rparr>]"
    by (simp add: handleInject_def Let_def push_sample_def slice_last_def)
  have short: "tempHistory (handleInject t ''ac'' r s) =
          tempHistory s @ [\<lparr>sample_time = t, sample_temp = 35.0\<rparr>]"
    if "length (tempHistory s) < 20"
    using that unfolding hist by simp
  have len: "length (tempHistory (handleInject t ''ac'' r s)) = min 19 (length (tempHistory s)) + 1"
    unfolding hist by simp
  have lst: "last (tempHistory (handleInject t ''ac'' r s)) = \<lparr>sample_time = t, sample_temp = 35.0\<rparr>"
    unfolding hist by simp
  have others:
    "tripData (handleInject t ''pothole'' r s) =
      (tripData s)\<lparr>peakGForce := 3.5, cisScore := max 0 (cisScore (tripData s) - 5)\<rparr>
   \<and> tempHistory (handleInject t ''pothole'' r s) = tempHistory s
   \<and> incidents (handleInject t ''pothole'' r s) = incidents s @
        [Some \<lparr>ident = idRef s + 1, time = t, event = ''Simulated Pothole'', type_key = critical,
               gforce = 3.5, temp = currentTemp r, deduction = 5, sim = True\<rparr>]
   \<and> tripData (handleInject t ''ac'' r s) =
      (tripData s)\<lparr>currentTemp := 35.0, cisScore := max 0 (cisScore (tripData s) - 10)\<rparr>
   \<and> incidents (handleInject t ''ac'' r s) = incidents s @
        [Some \<lparr>ident = idRef s + 1, time = t, event = ''Simulated AC Failure'', type_key = critical,
               gforce = peakGForce r, temp = 35.0, deduction = 10, sim = True\<rparr>]
   \<and> tripData (handleInject t ''shift'' r s) =
      (tripData s)\<lparr>currentTilt := 28, cisScore := max 0 (cisScore (tripData s) - 6)\<rparr>
   \<and> tempHistory (handleInject t ''shift'' r s) = tempHistory s
   \<and> incidents (handleInject t ''shift'' r s) = incidents s @
        [Some \<lparr>ident = idRef s + 1, time = t, event = ''Simulated Cargo Shift'', type_key = critical,
               gforce = peakGForce r, temp = currentTemp r, deduction = 6,
               sim = True\<rparr>]
   \<and> idRef (handleInject t ''pothole'' r s) = idRef s + 1
   \<and> idRef (handleInject t ''ac'' r s) = idRef s + 1
   \<and> idRef (handleInject t ''shift'' r s) = idRef s + 1
   \<and> peakGForce (tripData (handleInject t ''pothole'' r s)) = 3.5"
    by (simp add: handleInject_def Let_def)
  from others hist short len lst twenty never rest show ?thesis
    by blast
qed

theorem C2_injection_table_witness:
  "cisScore (tripData session_at_88) = 88
   \<and> length (tempHistory session_at_88) < 20
   \<and> cisScore (tripData ((handleInject ''12:00'' ''pothole'' (tripData session_at_88) ^^ 20)
        session_at_88)) = 0
   \<and> peakGForce (tripData (handleInject ''12:00'' ''pothole'' (tripData session_at_88)
        session_at_88)) = 3.5
   \<and> tempHistory (handleInject ''12:00'' ''ac'' (tripData session_at_88) session_at_88) =
        INITIAL_TEMP_HISTORY @ [\<lparr>sample_time = ''12:00'', sample_temp = 35.0\<rparr>]"
proof -
  have a: "cisScore (tripData session_at_88) = 88"
    by (simp add: session_at_88_def)
  have b: "tempHistory session_at_88 = INITIAL_TEMP_HISTORY"
    by (simp add: session_at_88_def initial_def)
  have c: "length (tempHistory session_at_88) < 20"
    unfolding b by (simp add: INITIAL_TEMP_HISTORY_def)
  from C2_injection_table [of "''12:00''" "tripData session_at_88" session_at_88 0] a b c
  show ?thesis by simp
qed


section \<open>Slider handlers\<close>

text \<open>
  C3 as stated does not hold: the handlers store the value they receive, so 100 and
  -10 degrees and 10 g are stored as they are, not as 45, 15 and 5.0.
\<close>

theorem C3_counterexample:
  "currentTemp (tripData (handleTempChange ''12:00'' 100 initial)) \<noteq> min 45 (max 15 100)
   \<and> currentTemp (tripData (handleTempChange ''12:00'' (- 10) initial)) \<noteq> min 45 (max 15 (- 10))
   \<and> peakGForce (tripData (handleGForceChange 10 initial)) \<noteq> min 5.0 (max 0.5 10)"
  by (simp add: handleTempChange_def handleGForceChange_def)

text \<open>
  C3, amended. \<open>handleTempChange(v)\<close> stores \<open>v\<close> itself as \<open>currentTemp\<close>, pushes one
  history sample with it (the history becomes its last 19 samples followed by the new
  one) and appends no incident; \<open>handleGForceChange(g)\<close> stores \<open>g\<close> itself as
  \<open>peakGForce\<close> and changes neither log nor history. Neither handler clamps or fails.
  For a value inside the range of its slider control (15 to 45 degrees, 0.5 to 5.0 g),
  which is all the control sends, the stored value equals the clamped value.
\<close>

theorem C3_slider_handlers:
  "tripData (handleTempChange t v s) = (tripData s)\<lparr>currentTemp := v\<rparr>
   \<and> tempHistory (handleTempChange t v s) =
        push_sample \<lparr>sample_time = t, sample_temp = v\<rparr> (tempHistory s)
   \<and> tempHistory (handleTempChange t v s) =
        drop (length (tempHistory s) - 19) (tempHistory s) @ [\<lparr>sample_time = t, sample_temp = v\<rparr>]
   \<and> incidents (handleTempChange t v s) = incidents s
   \<and> idRef (handleTempChange t v s) = idRef s
   \<and> tripData (handleGForceChange g s) = (tripData s)\<lparr>peakGForce := g\<rparr>
   \<and> tempHistory (handleGForceChange g s) = tempHistory s
   \<and> incidents (handleGForceChange g s) = incidents s
   \<and> idRef (handleGForceChange g s) = idRef s
   \<and> (15 \<le> v \<and> v \<le> 45 \<longrightarrow>
        currentTemp (tripData (handleTempChange t v s)) = min 45 (max 15 v))
   \<and> (0.5 \<le> g \<and> g \<le> 5.0 \<longrightarrow>
        peakGForce (tripData (handleGForceChange g s)) = min 5.0 (max 0.5 g))"
  by (simp add: handleTempChange_def handleGForceChange_def push_sample_def slice_last_def)

theorem C3_slider_handlers_witness:
  "(15::rat) \<le> 30 \<and> (30::rat) \<le> 45 \<and> (0.5::rat) \<le> 2 \<and> (2::rat) \<le> 5.0
   \<and> currentTemp (tripData (handleTempChange ''12:00'' 30 initial)) = 30
   \<and> peakGForce (tripData (handleGForceChange 2 initial)) = 2"
  using C3_slider_handlers [of "''12:00''" 30 initial 2] by simp

section \<open>Temperature history\<close>

text \<open>
  C8. The temperature history of a reachable state has at most 20 samples, and one event
  never makes it longer than 20 (or than it was). After a run of events the history is
  the last 20 of the old history followed by the samples the run pushed, in the order
  they were pushed; when the run pushed 25 samples (by temperature changes, AC
  injections and ticks in any mix) the history has exactly 20 samples and they are the
  last 20 of the 25, oldest first.
\<close>

theorem C8_history_ring:
  "(reachable s \<longrightarrow> length (tempHistory s) \<le> 20)
   \<and> length (tempHistory (step e s)) \<le> max 20 (length (tempHistory s))
   \<and> tempHistory (run es s) =
       (if pushed es s = [] then tempHistory s else slice_last 20 (tempHistory s @ pushed es s))
   \<and> (length (pushed es s) = 25 \<longrightarrow>
        length (tempHistory (run es s)) = 20 \<and> tempHistory (run es s) = drop 5 (pushed es s))"
proof -
  have a: "length (tempHistory (step e s)) \<le> max 20 (length (tempHistory s))"
    using step_history [of e s] length_push_sample
    by (cases "new_sample e s") (simp_all add: le_max_iff_disj)
  have b: "length (tempHistory (run es s)) = 20 \<and> tempHistory (run es s) = drop 5 (pushed es s)"
    if "length (pushed es s) = 25"
  proof -
    from that have "pushed es s \<noteq> []" by auto
    with run_history [of es s] that show ?thesis by (simp add: slice_last_25)
  qed
  from a b show ?thesis
    using reachable_history run_history by blast
qed


theorem C8_history_ring_witness:
  "reachable initial \<and> length (tempHistory initial) = 14
   \<and> length (pushed (replicate 25 (TempChange ''12:00'' 20)) initial) = 25
   \<and> length (tempHistory (run (replicate 25 (TempChange ''12:00'' 20)) initial)) = 20
   \<and> tempHistory (run (replicate 25 (TempChange ''12:00'' 20)) initial) =
       replicate 20 \<lparr>sample_time = ''12:00'', sample_temp = 20\<rparr>"
proof -
  let ?es = "replicate 25 (TempChange ''12:00'' 20)"
  have len: "length (pushed ?es initial) = 25"
    by (simp add: pushed_replicate_temp)
  with C8_history_ring [of initial ClearFlash ?es]
  have "length (tempHistory (run ?es initial)) = 20
      \<and> tempHistory (run ?es initial) = drop 5 (pushed ?es initial)"
    by blast
  then have run: "length (tempHistory (run ?es initial)) = 20
      \<and> tempHistory (run ?es initial) = replicate 20 \<lparr>sample_time = ''12:00'', sample_temp = 20\<rparr>"
    by (simp add: pushed_replicate_temp)
  have "length (tempHistory initial) = 14"
    by (simp add: initial_def INITIAL_TEMP_HISTORY_def)
  with len run reachable.init show ?thesis by blast
qed


end
